theory Spec2Isabelle
  imports Complex_Main
begin

section \<open>Python string and path primitives used by the scripts\<close>

text \<open>
  The scripts use three string operations of the Python runtime: \<^verbatim>\<open>str.endswith\<close>,
  \<^verbatim>\<open>str.replace\<close> and \<^verbatim>\<open>str.rsplit(".", 1)[0]\<close>, and \<^verbatim>\<open>os.path.join\<close> (POSIX flavour).
  A \<open>string\<close> is a list of bytes here; the patterns involved are ASCII, and an ASCII byte
  never occurs inside a multi-byte UTF-8 sequence, so matching on bytes and matching on
  code points agree.
\<close>

definition endswith :: "string \<Rightarrow> string \<Rightarrow> bool" where
  "endswith s suf \<longleftrightarrow> length suf \<le> length s \<and> drop (length s - length suf) s = suf"

text \<open>
  \<^verbatim>\<open>s.replace(old, new)\<close> replaces every non-overlapping occurrence of \<open>old\<close>, scanning
  from the left. With an empty \<open>old\<close> Python inserts \<open>new\<close> before every character and at
  the end.
\<close>

function str_replace :: "string \<Rightarrow> string \<Rightarrow> string \<Rightarrow> string" where
  "str_replace old new s =
     (if old = [] then new @ concat (map (\<lambda>c. c # new) s)
      else if length s < length old then s
      else if take (length old) s = old then new @ str_replace old new (drop (length old) s)
      else hd s # str_replace old new (tl s))"
  by pat_completeness auto
termination
proof (relation "measure (\<lambda>(old, new, s). length s)", goal_cases)
  case 1
  show ?case by simp
next
  case (2 old new s)
  then have "0 < length old" "length old \<le> length s" by simp_all
  then have "length s - length old < length s" by linarith
  then show ?case by simp
next
  case (3 old new s)
  then have "0 < length old" "length old \<le> length s" by simp_all
  then show ?case by (cases s) simp_all
qed

declare str_replace.simps [simp del]

text \<open>
  \<^verbatim>\<open>s.rsplit(".", 1)[0]\<close>: the part of \<open>s\<close> before its last dot, or all of \<open>s\<close> when it has
  no dot.
\<close>

definition rsplit_dot_head :: "string \<Rightarrow> string" where
  "rsplit_dot_head s =
     (if CHR ''.'' \<in> set s then rev (tl (dropWhile (\<lambda>c. c \<noteq> CHR ''.'') (rev s))) else s)"

text \<open>\<^verbatim>\<open>os.path.join(a, p)\<close> of \<^verbatim>\<open>posixpath\<close>, for two components.\<close>

definition path_join :: "string \<Rightarrow> string \<Rightarrow> string" where
  "path_join a p =
     (if p \<noteq> [] \<and> hd p = CHR ''/'' then p
      else if a = [] \<or> last a = CHR ''/'' then a @ p
      else a @ ''/'' @ p)"

section \<open>The manifest\<close>

text \<open>
  The manifest is a pandas data frame read by \<^verbatim>\<open>pd.read_csv\<close>: an ordered list of rows under
  the default range index, so the label \<open>idx\<close> that \<^verbatim>\<open>df.iterrows()\<close> yields is the row's
  position. A row maps a column name to its cell; a cell is the text \<^verbatim>\<open>str(...)\<close> gives for it.
\<close>

type_synonym row = "string \<rightharpoonup> string"
type_synonym dataframe = "row list"

text \<open>\<^verbatim>\<open>df[c] = ""\<close>: creates column \<open>c\<close>, or resets it when it is there already.\<close>

definition set_column :: "string \<Rightarrow> dataframe \<Rightarrow> dataframe" where
  "set_column c d = map (\<lambda>r. r(c \<mapsto> [])) d"

text \<open>
  \<^verbatim>\<open>df.at[idx, c] = v\<close>. For a label that is not in the index pandas enlarges the frame by a
  row holding only that cell.
\<close>

definition at_set :: "dataframe \<Rightarrow> nat \<Rightarrow> string \<Rightarrow> string \<Rightarrow> dataframe" where
  "at_set d idx c v =
     (if idx < length d then d[idx := (d ! idx)(c \<mapsto> v)] else d @ [Map.empty(c \<mapsto> v)])"

text \<open>\<^verbatim>\<open>df.iterrows()\<close>: the pairs of label and row, in manifest order.\<close>

definition iterrows :: "dataframe \<Rightarrow> (nat \<times> row) list" where
  "iterrows d = zip [0..<length d] d"

section \<open>External collaborators\<close>

text \<open>
  A Python float that \<^verbatim>\<open>float(...)\<close> can return: a finite value, an infinity or a NaN, with the
  two comparisons the scripts make against the 30 second threshold.
\<close>

datatype pyfloat = Fin real | PosInf | NegInf | NaN

fun float_gt :: "pyfloat \<Rightarrow> real \<Rightarrow> bool" where
  "float_gt (Fin x) t = (t < x)"
| "float_gt PosInf t = True"
| "float_gt NegInf t = False"
| "float_gt NaN t = False"

fun float_le :: "pyfloat \<Rightarrow> real \<Rightarrow> bool" where
  "float_le (Fin x) t = (x \<le> t)"
| "float_le PosInf t = False"
| "float_le NegInf t = True"
| "float_le NaN t = False"

text \<open>
  What the duration probe gives for one file: \<^verbatim>\<open>subprocess.run(duration_cmd, ...)\<close> itself
  raised (\<open>ProbeRaised\<close>: the executable could not be started), or it returned and
  \<^verbatim>\<open>float(result.stdout.strip())\<close> gave a float (\<open>Stdout (Some d)\<close>) or raised
  \<^verbatim>\<open>ValueError\<close> (\<open>Stdout None\<close>: unparsable output).
\<close>

datatype probe_result = ProbeRaised | Stdout "pyfloat option"

datatype error = KeyError | SubprocessError | ValueError

text \<open>
  The arithmetic of float64 that the noise stage uses, on the same type. A finite value
  is a real and arithmetic on finite values is exact (rounding and overflow are left out);
  infinities and NaN follow IEEE 754: NaN is absorbing, \<open>inf - inf\<close> and \<open>0 * inf\<close> are NaN.
  \<open>fmax\<close> and \<open>fmin\<close> are \<^verbatim>\<open>np.maximum\<close> and \<^verbatim>\<open>np.minimum\<close>, which return NaN when either
  argument is NaN.
\<close>

fun fadd :: "pyfloat \<Rightarrow> pyfloat \<Rightarrow> pyfloat" where
  "fadd NaN y = NaN"
| "fadd x NaN = NaN"
| "fadd (Fin a) (Fin b) = Fin (a + b)"
| "fadd PosInf NegInf = NaN"
| "fadd NegInf PosInf = NaN"
| "fadd PosInf y = PosInf"
| "fadd x PosInf = PosInf"
| "fadd NegInf y = NegInf"
| "fadd x NegInf = NegInf"

fun fmul :: "pyfloat \<Rightarrow> pyfloat \<Rightarrow> pyfloat" where
  "fmul NaN y = NaN"
| "fmul x NaN = NaN"
| "fmul (Fin a) (Fin b) = Fin (a * b)"
| "fmul (Fin a) PosInf = (if a = 0 then NaN else if 0 < a then PosInf else NegInf)"
| "fmul (Fin a) NegInf = (if a = 0 then NaN else if 0 < a then NegInf else PosInf)"
| "fmul PosInf (Fin b) = (if b = 0 then NaN else if 0 < b then PosInf else NegInf)"
| "fmul NegInf (Fin b) = (if b = 0 then NaN else if 0 < b then NegInf else PosInf)"
| "fmul PosInf PosInf = PosInf"
| "fmul PosInf NegInf = NegInf"
| "fmul NegInf PosInf = NegInf"
| "fmul NegInf NegInf = PosInf"

fun fmax :: "pyfloat \<Rightarrow> pyfloat \<Rightarrow> pyfloat" where
  "fmax NaN y = NaN"
| "fmax x NaN = NaN"
| "fmax PosInf y = PosInf"
| "fmax x PosInf = PosInf"
| "fmax NegInf y = y"
| "fmax x NegInf = x"
| "fmax (Fin a) (Fin b) = Fin (max a b)"

fun fmin :: "pyfloat \<Rightarrow> pyfloat \<Rightarrow> pyfloat" where
  "fmin NaN y = NaN"
| "fmin x NaN = NaN"
| "fmin NegInf y = NegInf"
| "fmin x NegInf = NegInf"
| "fmin PosInf y = y"
| "fmin x PosInf = x"
| "fmin (Fin a) (Fin b) = Fin (min a b)"

fun fabs :: "pyfloat \<Rightarrow> pyfloat" where
  "fabs (Fin a) = Fin \<bar>a\<bar>"
| "fabs PosInf = PosInf"
| "fabs NegInf = PosInf"
| "fabs NaN = NaN"

text \<open>
  Everything the outside world answers while one manifest row is processed: whether
  \<^verbatim>\<open>os.path.exists(input_path)\<close> holds, the duration probe, whether the transcode tool
  exits with status zero (\<^verbatim>\<open>check=True\<close> raises otherwise), and for the noise stage what
  \<^verbatim>\<open>sf.read\<close> decodes (\<open>None\<close> when it raises), the draw of \<^verbatim>\<open>np.random.uniform(0.5, 1.0)\<close>,
  the draws of \<^verbatim>\<open>np.random.normal\<close> (one per sample position) and whether \<^verbatim>\<open>sf.write\<close>
  succeeds. A decoded sample is a float64: a 16-bit PCM file decodes to finite samples, a
  floating-point file can hold infinities and NaN. The random draws are finite.
\<close>

record obs =
  path_exists :: bool
  probe :: probe_result
  ffmpeg_ok :: bool
  sf_read :: "pyfloat list option"
  uniform_draw :: real
  normal_draw :: "nat \<Rightarrow> real"
  sf_write_ok :: bool

text \<open>What a run leaves outside the manifest: probes made and derived files written.\<close>

datatype event =
    Probed string
  | Transcoded string string
  | WroteAudio string "pyfloat list"

section \<open>The additive-noise transform (\<^verbatim>\<open>augmented_noise.py\<close>)\<close>

text \<open>
  \<^verbatim>\<open>np.amax(data)\<close>: the largest element, NaN when any element is NaN; raises
  \<^verbatim>\<open>ValueError\<close> on an empty array.
\<close>

fun amax :: "pyfloat list \<Rightarrow> error + pyfloat" where
  "amax [] = Inl ValueError"
| "amax (x # xs) = Inr (fold fmax xs x)"

text \<open>\<^verbatim>\<open>np.clip(x, lo, hi)\<close> on one element: \<^verbatim>\<open>minimum(hi, maximum(x, lo))\<close>.\<close>

definition clip :: "pyfloat \<Rightarrow> real \<Rightarrow> real \<Rightarrow> pyfloat" where
  "clip x lo hi = fmin (Fin hi) (fmax x (Fin lo))"

text \<open>\<^verbatim>\<open>noise_amp = 0.02 * np.random.uniform(0.5, 1.0) * np.amax(data)\<close>\<close>

definition noise_amp :: "real \<Rightarrow> pyfloat list \<Rightarrow> error + pyfloat" where
  "noise_amp u data =
     (case amax data of Inl e \<Rightarrow> Inl e | Inr m \<Rightarrow> Inr (fmul (Fin (0.02 * u)) m))"

text \<open>
  \<^verbatim>\<open>noisy_data = data + noise_amp * np.random.normal(size=data.shape)\<close> followed by
  \<^verbatim>\<open>noisy_data = np.clip(noisy_data, -1.0, 1.0)\<close>.
\<close>

definition noisy_data :: "real \<Rightarrow> (nat \<Rightarrow> real) \<Rightarrow> pyfloat list \<Rightarrow> error + pyfloat list" where
  "noisy_data u z data =
     (case noise_amp u data of
        Inl e \<Rightarrow> Inl e
      | Inr a \<Rightarrow>
          Inr (map (\<lambda>i. clip (fadd (data ! i) (fmul a (Fin (z i)))) (- 1.0) 1.0)
                 [0..<length data]))"

text \<open>
  The amplitude as the specification words it: \<open>0.02 \<times> U(0.5, 1.0) \<times> peak_absolute_sample\<close>,
  the peak being the maximum of the absolute values of all samples.
\<close>

definition spec_peak_absolute_sample :: "pyfloat list \<Rightarrow> error + pyfloat" where
  "spec_peak_absolute_sample data = amax (map fabs data)"

definition spec_noise_amp :: "real \<Rightarrow> pyfloat list \<Rightarrow> error + pyfloat" where
  "spec_noise_amp u data =
     (case spec_peak_absolute_sample data of
        Inl e \<Rightarrow> Inl e
      | Inr m \<Rightarrow> Inr (fmul (Fin (0.02 * u)) m))"

section \<open>The four augmentation scripts\<close>

text \<open>
  \<^verbatim>\<open>augmented_2x_speed.py\<close>, \<^verbatim>\<open>augmented_volume.py\<close>, \<^verbatim>\<open>augmented_noise.py\<close> and
  \<^verbatim>\<open>augmented_lowpass.py\<close> are the same loop with different constants; the tables below
  hold what differs.
\<close>

datatype stage = Speed2x | Volume | Noise | Lowpass

definition filtered_folder :: string where
  "filtered_folder = ''filteredforwhisper''"

fun augmented_folder :: "stage \<Rightarrow> string" where
  "augmented_folder Speed2x = ''augmented_2x''"
| "augmented_folder Volume = ''augmented_volume''"
| "augmented_folder Noise = ''augmented_noise''"
| "augmented_folder Lowpass = ''augmented_lowpass''"

fun augmented_column :: "stage \<Rightarrow> string" where
  "augmented_column Speed2x = ''augmented_audio_2x''"
| "augmented_column Volume = ''augmented_audio_volume''"
| "augmented_column Noise = ''augmented_audio_noise''"
| "augmented_column Lowpass = ''augmented_audio_lowpass''"

text \<open>The second argument of \<^verbatim>\<open>filename.replace('.wav', ...)\<close>.\<close>

fun replacement :: "stage \<Rightarrow> string" where
  "replacement Speed2x = ''_2x.wav''"
| "replacement Volume = ''_volume.wav''"
| "replacement Noise = ''_noise.wav''"
| "replacement Lowpass = ''_lowpass.wav''"

text \<open>
  Whether the script runs the duration probe: \<^verbatim>\<open>augmented_2x_speed.py\<close> has no probe and no
  \<^verbatim>\<open>deleted_count\<close>; the other three have both.
\<close>

fun probes_duration :: "stage \<Rightarrow> bool" where
  "probes_duration Speed2x = False"
| "probes_duration Volume = True"
| "probes_duration Noise = True"
| "probes_duration Lowpass = True"

definition output_name :: "stage \<Rightarrow> string \<Rightarrow> string" where
  "output_name st filename = str_replace ''.wav'' (replacement st) filename"

record state =
  df :: dataframe
  success_count :: nat
  failed_count :: nat
  not_found_count :: nat
  deleted_count :: nat
  events :: "event list"

text \<open>
  The duration check of the three probing scripts. The probe call stands outside every
  \<^verbatim>\<open>try\<close>, so an exception of \<^verbatim>\<open>subprocess.run\<close> ends the script; the \<^verbatim>\<open>float\<close> conversion is
  inside \<^verbatim>\<open>try: ... except: duration = 0.0\<close>. The result says whether the row goes on to
  the transform.
\<close>

definition check_duration :: "stage \<Rightarrow> obs \<Rightarrow> string \<Rightarrow> state \<Rightarrow> error + (bool \<times> state)" where
  "check_duration st ob input_path s =
     (if \<not> probes_duration st then Inr (True, s)
      else case probe ob of
             ProbeRaised \<Rightarrow> Inl SubprocessError
           | Stdout r \<Rightarrow>
               let duration = (case r of None \<Rightarrow> Fin 0 | Some d \<Rightarrow> d);
                   s1 = s\<lparr>events := events s @ [Probed input_path]\<rparr>
               in if float_gt duration 30
                  then Inr (False, s1\<lparr>deleted_count := deleted_count s1 + 1\<rparr>)
                  else Inr (True, s1))"

text \<open>
  The body of the \<^verbatim>\<open>try\<close> block up to the point where the derived file is written: \<open>None\<close>
  when anything in it raises (every exception is caught by \<^verbatim>\<open>except Exception\<close>), else the
  file written. The noise stage decodes, adds noise and encodes with the audio library;
  the other three call the transcode tool. The random cutoff and gain of the low-pass and
  volume stages only enter the tool's arguments.
\<close>

definition transform :: "stage \<Rightarrow> obs \<Rightarrow> string \<Rightarrow> string \<Rightarrow> event option" where
  "transform st ob input_path output_path =
     (if st = Noise then
        (case sf_read ob of
           None \<Rightarrow> None
         | Some data \<Rightarrow>
             (case noisy_data (uniform_draw ob) (normal_draw ob) data of
                Inl e \<Rightarrow> None
              | Inr nd \<Rightarrow> if sf_write_ok ob then Some (WroteAudio output_path nd) else None))
      else if ffmpeg_ok ob then Some (Transcoded input_path output_path) else None)"

text \<open>From \<^verbatim>\<open>df.at[idx, 'original_audio'] = input_path\<close> to the end of the loop body.\<close>

definition augment :: "stage \<Rightarrow> obs \<Rightarrow> nat \<Rightarrow> string \<Rightarrow> string \<Rightarrow> state \<Rightarrow> state" where
  "augment st ob idx filename input_path s =
     (let s1 = s\<lparr>df := at_set (df s) idx ''original_audio'' input_path\<rparr>;
          output_path = path_join (augmented_folder st) (output_name st filename)
      in case transform st ob input_path output_path of
           None \<Rightarrow> s1\<lparr>failed_count := failed_count s1 + 1\<rparr>
         | Some ev \<Rightarrow>
             s1\<lparr>df := at_set (df s1) idx (augmented_column st) output_path,
                success_count := success_count s1 + 1,
                events := events s1 @ [ev]\<rparr>)"

text \<open>One iteration of \<^verbatim>\<open>for idx, row in df.iterrows()\<close>.\<close>

definition process_row :: "stage \<Rightarrow> obs \<Rightarrow> nat \<Rightarrow> row \<Rightarrow> state \<Rightarrow> error + state" where
  "process_row st ob idx row s =
     (case row ''Recording Name'' of
        None \<Rightarrow> Inl KeyError
      | Some filename \<Rightarrow>
          if \<not> endswith filename ''.wav'' then Inr s
          else
            let input_path = path_join filtered_folder filename
            in if \<not> path_exists ob then Inr (s\<lparr>not_found_count := not_found_count s + 1\<rparr>)
               else (case check_duration st ob input_path s of
                       Inl e \<Rightarrow> Inl e
                     | Inr (go, s1) \<Rightarrow>
                         if go then Inr (augment st ob idx filename input_path s1) else Inr s1))"

text \<open>The loop; \<open>env idx\<close> is what the outside world answers for the row labelled \<open>idx\<close>.\<close>

fun loop :: "stage \<Rightarrow> (nat \<Rightarrow> obs) \<Rightarrow> (nat \<times> row) list \<Rightarrow> state \<Rightarrow> error + state" where
  "loop st env [] s = Inr s"
| "loop st env ((idx, row) # rest) s =
     (case process_row st (env idx) idx row s of
        Inl e \<Rightarrow> Inl e
      | Inr s' \<Rightarrow> loop st env rest s')"

text \<open>
  From \<^verbatim>\<open>df['original_audio'] = ""\<close> to the end of the loop, on the loaded manifest.
  \<^verbatim>\<open>iterrows\<close> reads the frame as it is when the loop starts.
\<close>

definition initial_state :: "stage \<Rightarrow> dataframe \<Rightarrow> state" where
  "initial_state st df0 =
     \<lparr>df = set_column (augmented_column st) (set_column ''original_audio'' df0),
      success_count = 0, failed_count = 0, not_found_count = 0, deleted_count = 0,
      events = []\<rparr>"

definition run :: "stage \<Rightarrow> (nat \<Rightarrow> obs) \<Rightarrow> dataframe \<Rightarrow> error + state" where
  "run st env df0 = loop st env (iterrows (df (initial_state st df0))) (initial_state st df0)"

text \<open>
  The exit status of \<^verbatim>\<open>exit(arg)\<close>: \<^verbatim>\<open>exit()\<close> is \<^verbatim>\<open>sys.exit(None)\<close>, status zero; an integer
  argument is the status.
\<close>

definition exit_status_of :: "int option \<Rightarrow> int" where
  "exit_status_of arg = (case arg of None \<Rightarrow> 0 | Some n \<Rightarrow> n)"

text \<open>
  The whole script. \<open>csv\<close> is \<open>None\<close> when \<^verbatim>\<open>os.path.exists(csv_path)\<close> is false, else the
  frame \<^verbatim>\<open>pd.read_csv\<close> loads. The result is the process exit status and, when
  \<^verbatim>\<open>df.to_csv\<close> is reached, the final state whose frame is the output manifest. An
  uncaught exception ends the interpreter with status 1 before anything is written.
\<close>

definition main :: "stage \<Rightarrow> dataframe option \<Rightarrow> (nat \<Rightarrow> obs) \<Rightarrow> int \<times> state option" where
  "main st csv env =
     (case csv of
        None \<Rightarrow> (exit_status_of None, None)
      | Some df0 \<Rightarrow>
          (case run st env df0 of
             Inl e \<Rightarrow> (1, None)
           | Inr s \<Rightarrow> (0, Some s)))"

text \<open>The sum of the four counters of the summary.\<close>

definition total :: "state \<Rightarrow> nat" where
  "total s = success_count s + failed_count s + not_found_count s + deleted_count s"

section \<open>The conversion script (\<^verbatim>\<open>convert_to_wav_filter30s.py\<close>)\<close>

record convert_obs =
  c_ffmpeg_ok :: bool
  c_probe :: probe_result
  c_copy_ok :: bool

record convert_state =
  failed_files :: "string list"
  kept_count :: nat
  skipped_count :: nat
  filtered_files :: "string list"

definition threshold_sec :: real where
  "threshold_sec = 30"

text \<open>
  One iteration of \<^verbatim>\<open>for filename in os.listdir(input_folder)\<close>. Transcode, probe, \<^verbatim>\<open>float\<close>
  conversion and copy all stand inside one \<^verbatim>\<open>try\<close> whose \<^verbatim>\<open>except Exception\<close> appends the
  file name to \<^verbatim>\<open>failed_files\<close>. \<open>filtered_files\<close> lists the names copied into the kept
  folder, which is the source folder of the augmentation scripts.
\<close>

definition convert_file :: "convert_obs \<Rightarrow> string \<Rightarrow> convert_state \<Rightarrow> convert_state" where
  "convert_file ob filename s =
     (if \<not> endswith filename ''.webm'' then s
      else
        let output_name = rsplit_dot_head filename @ ''.wav'';
            failed = s\<lparr>failed_files := failed_files s @ [filename]\<rparr>
        in if \<not> c_ffmpeg_ok ob then failed
           else case c_probe ob of
                  ProbeRaised \<Rightarrow> failed
                | Stdout None \<Rightarrow> failed
                | Stdout (Some duration_sec) \<Rightarrow>
                    if float_le duration_sec threshold_sec
                    then if c_copy_ok ob
                         then s\<lparr>kept_count := kept_count s + 1,
                                filtered_files := filtered_files s @ [output_name]\<rparr>
                         else failed
                    else s\<lparr>skipped_count := skipped_count s + 1\<rparr>)"

section \<open>Notions the statements below use\<close>

text \<open>
  The derived name as the specification words it: the source name with the transform suffix
  substituted for the final \<^verbatim>\<open>.wav\<close> extension only.
\<close>

definition spec_output_name :: "stage \<Rightarrow> string \<Rightarrow> string" where
  "spec_output_name st filename =
     take (length filename - length ''.wav'') filename @ replacement st"

text \<open>
  The row reaches the transform: the script has no duration check, or the probe ran and
  the duration it gave (zero when unparsable) does not exceed 30 seconds.
\<close>

definition passes_duration_filter :: "stage \<Rightarrow> obs \<Rightarrow> bool" where
  "passes_duration_filter st ob =
     (if probes_duration st
      then (case probe ob of
              ProbeRaised \<Rightarrow> False
            | Stdout r \<Rightarrow> \<not> float_gt (case r of None \<Rightarrow> Fin 0 | Some d \<Rightarrow> d) 30)
      else True)"

text \<open>
  A sample is finite; a sample lies within \<open>[-1, 1]\<close> (no infinity and no NaN does).
\<close>

fun finite_sample :: "pyfloat \<Rightarrow> bool" where
  "finite_sample (Fin x) = True"
| "finite_sample PosInf = False"
| "finite_sample NegInf = False"
| "finite_sample NaN = False"

fun in_unit_range :: "pyfloat \<Rightarrow> bool" where
  "in_unit_range (Fin x) = (- 1 \<le> x \<and> x \<le> 1)"
| "in_unit_range PosInf = False"
| "in_unit_range NegInf = False"
| "in_unit_range NaN = False"

text \<open>
  What the output manifest holds for a row of the input frame \<open>r\<close>, given what the outside
  world answers for it: both path cells blank, then the source path when the row reaches
  the transform and the derived path when the transform succeeds.
\<close>

definition final_row :: "stage \<Rightarrow> obs \<Rightarrow> row \<Rightarrow> row" where
  "final_row st ob r =
     (let blank = r(''original_audio'' \<mapsto> [], augmented_column st \<mapsto> [])
      in case r ''Recording Name'' of
           None \<Rightarrow> blank
         | Some f \<Rightarrow>
             if endswith f ''.wav'' \<and> path_exists ob \<and> passes_duration_filter st ob
             then (let input_path = path_join filtered_folder f;
                       output_path = path_join (augmented_folder st) (output_name st f)
                   in case transform st ob input_path output_path of
                        None \<Rightarrow> blank(''original_audio'' \<mapsto> input_path)
                      | Some ev \<Rightarrow>
                          blank(''original_audio'' \<mapsto> input_path,
                                augmented_column st \<mapsto> output_path))
             else blank)"

text \<open>
  The reader and the writer on one field of a column kept as text. \<^verbatim>\<open>pd.read_csv\<close> loads a
  field that is one of its default missing-value markers as NaN (\<open>None\<close> here), \<^verbatim>\<open>str\<close> of
  NaN is \<open>nan\<close>, and \<^verbatim>\<open>df.to_csv\<close> writes NaN as an empty field. The frames of the model
  are frames as loaded, their cells the \<^verbatim>\<open>str\<close> text.
\<close>

definition na_values :: "string list" where
  "na_values =
     [[], ''#N/A'', ''#N/A N/A'', ''#NA'', ''-1.#IND'', ''-1.#QNAN'', ''-NaN'', ''-nan'',
      ''1.#IND'', ''1.#QNAN'', ''<NA>'', ''N/A'', ''NA'', ''NULL'', ''NaN'', ''None'', ''n/a'',
      ''nan'', ''null'']"

definition read_csv_field :: "string \<Rightarrow> string option" where
  "read_csv_field t = (if t \<in> set na_values then None else Some t)"

definition str_field :: "string option \<Rightarrow> string" where
  "str_field v = (case v of None \<Rightarrow> ''nan'' | Some t \<Rightarrow> t)"

definition to_csv_field :: "string option \<Rightarrow> string" where
  "to_csv_field v = (case v of None \<Rightarrow> [] | Some t \<Rightarrow> t)"

text \<open>The counters of the conversion script before its loop.\<close>

definition convert_start :: convert_state where
  "convert_start = \<lparr>failed_files = [], kept_count = 0, skipped_count = 0, filtered_files = []\<rparr>"

section \<open>A small manifest and its environment, for evaluation\<close>

text \<open>
  Five rows: \<open>a.wav\<close> is present, 10 s long and transformed; \<open>b.wav\<close> is absent; \<open>c.wav\<close> is
  present and 45 s long; \<open>d.wav\<close> is present, its probe output is unparsable and its
  transform fails; \<open>notes.txt\<close> is not a waveform name. The \<open>demo_*_final\<close> states are what
  the speed, volume and noise scripts leave.
\<close>

definition demo_obs :: obs where
  "demo_obs = \<lparr>path_exists = True, probe = Stdout (Some (Fin 10)), ffmpeg_ok = True,
     sf_read = Some [Fin (- 0.5), Fin 0.25, Fin 0.9], uniform_draw = 0.5,
     normal_draw = (\<lambda>i. if i = 0 then - 1000 else if i = 1 then 4 else 1000),
     sf_write_ok = True\<rparr>"

definition demo_env :: "nat \<Rightarrow> obs" where
  "demo_env i =
     (if i = 1 then demo_obs\<lparr>path_exists := False\<rparr>
      else if i = 2 then demo_obs\<lparr>probe := Stdout (Some (Fin 45))\<rparr>
      else if i = 3 then demo_obs\<lparr>probe := Stdout None, ffmpeg_ok := False, sf_write_ok := False\<rparr>
      else demo_obs)"

definition demo_manifest :: dataframe where
  "demo_manifest =
     [[''Recording Name'' \<mapsto> ''a.wav''], [''Recording Name'' \<mapsto> ''b.wav''],
      [''Recording Name'' \<mapsto> ''c.wav''], [''Recording Name'' \<mapsto> ''d.wav''],
      [''Recording Name'' \<mapsto> ''notes.txt'']]"

definition demo_cell :: "string \<Rightarrow> string \<Rightarrow> string \<Rightarrow> string \<Rightarrow> row" where
  "demo_cell col name orig aug =
     [''Recording Name'' \<mapsto> name, ''original_audio'' \<mapsto> orig, col \<mapsto> aug]"

definition demo_volume_final :: state where
  "demo_volume_final =
     \<lparr>df = [demo_cell ''augmented_audio_volume'' ''a.wav'' ''filteredforwhisper/a.wav''
              ''augmented_volume/a_volume.wav'',
            demo_cell ''augmented_audio_volume'' ''b.wav'' [] [],
            demo_cell ''augmented_audio_volume'' ''c.wav'' [] [],
            demo_cell ''augmented_audio_volume'' ''d.wav'' ''filteredforwhisper/d.wav'' [],
            demo_cell ''augmented_audio_volume'' ''notes.txt'' [] []],
      success_count = 1, failed_count = 1, not_found_count = 1, deleted_count = 1,
      events = [Probed ''filteredforwhisper/a.wav'',
                Transcoded ''filteredforwhisper/a.wav'' ''augmented_volume/a_volume.wav'',
                Probed ''filteredforwhisper/c.wav'',
                Probed ''filteredforwhisper/d.wav'']\<rparr>"


definition demo_noise_final :: state where
  "demo_noise_final =
     \<lparr>df = [demo_cell ''augmented_audio_noise'' ''a.wav'' ''filteredforwhisper/a.wav''
              ''augmented_noise/a_noise.wav'',
            demo_cell ''augmented_audio_noise'' ''b.wav'' [] [],
            demo_cell ''augmented_audio_noise'' ''c.wav'' [] [],
            demo_cell ''augmented_audio_noise'' ''d.wav'' ''filteredforwhisper/d.wav'' [],
            demo_cell ''augmented_audio_noise'' ''notes.txt'' [] []],
      success_count = 1, failed_count = 1, not_found_count = 1, deleted_count = 1,
      events = [Probed ''filteredforwhisper/a.wav'',
                WroteAudio ''augmented_noise/a_noise.wav'' [Fin (- 1), Fin 0.286, Fin 1],
                Probed ''filteredforwhisper/c.wav'',
                Probed ''filteredforwhisper/d.wav'']\<rparr>"

text \<open>
  A one-row manifest whose recording decodes to a buffer holding a NaN, as a
  floating-point waveform file can, and what the noise script leaves on it.
\<close>

definition nan_obs :: obs where
  "nan_obs = demo_obs\<lparr>sf_read := Some [Fin 0.25, NaN]\<rparr>"

definition nan_env :: "nat \<Rightarrow> obs" where
  "nan_env i = nan_obs"

definition one_row_manifest :: dataframe where
  "one_row_manifest = [[''Recording Name'' \<mapsto> ''a.wav'']]"

definition nan_noise_final :: state where
  "nan_noise_final =
     \<lparr>df = [demo_cell ''augmented_audio_noise'' ''a.wav'' ''filteredforwhisper/a.wav''
              ''augmented_noise/a_noise.wav''],
      success_count = 1, failed_count = 0, not_found_count = 0, deleted_count = 0,
      events = [Probed ''filteredforwhisper/a.wav'',
                WroteAudio ''augmented_noise/a_noise.wav'' [NaN, NaN]]\<rparr>"

text \<open>
  A manifest as the volume script writes it, with both of its path columns filled, and
  what the noise script leaves on it when \<open>b.wav\<close> is absent.
\<close>

definition chained_manifest :: dataframe where
  "chained_manifest =
     [[''Recording Name'' \<mapsto> ''a.wav'', ''original_audio'' \<mapsto> ''filteredforwhisper/a.wav'',
       ''augmented_audio_volume'' \<mapsto> ''augmented_volume/a_volume.wav''],
      [''Recording Name'' \<mapsto> ''b.wav'', ''original_audio'' \<mapsto> ''filteredforwhisper/b.wav'',
       ''augmented_audio_volume'' \<mapsto> ''augmented_volume/b_volume.wav'']]"

definition chained_noise_final :: state where
  "chained_noise_final =
     \<lparr>df = [[''Recording Name'' \<mapsto> ''a.wav'', ''original_audio'' \<mapsto> ''filteredforwhisper/a.wav'',
             ''augmented_audio_volume'' \<mapsto> ''augmented_volume/a_volume.wav'',
             ''augmented_audio_noise'' \<mapsto> ''augmented_noise/a_noise.wav''],
            [''Recording Name'' \<mapsto> ''b.wav'', ''original_audio'' \<mapsto> [],
             ''augmented_audio_volume'' \<mapsto> ''augmented_volume/b_volume.wav'',
             ''augmented_audio_noise'' \<mapsto> []]],
      success_count = 1, failed_count = 0, not_found_count = 1, deleted_count = 0,
      events = [Probed ''filteredforwhisper/a.wav'',
                WroteAudio ''augmented_noise/a_noise.wav'' [Fin (- 1), Fin 0.286, Fin 1]]\<rparr>"

section \<open>Frame lemmas for one iteration and for the loop\<close>

lemma at_set_length: "idx < length d \<Longrightarrow> length (at_set d idx c v) = length d"
  by (simp add: at_set_def)

lemma at_set_nth_same: "idx < length d \<Longrightarrow> at_set d idx c v ! idx = (d ! idx)(c \<mapsto> v)"
  by (simp add: at_set_def)

lemma at_set_nth_other: "idx < length d \<Longrightarrow> j \<noteq> idx \<Longrightarrow> at_set d idx c v ! j = d ! j"
  by (simp add: at_set_def)

lemma at_set_cell_other:
  "idx < length d \<Longrightarrow> c' \<noteq> c \<Longrightarrow> (at_set d idx c v ! j) c' = (d ! j) c'"
  by (cases "j = idx") (simp_all add: at_set_def)

lemma check_duration_frame:
  assumes "check_duration st ob p s = Inr (go, s1)"
  shows "df s1 = df s" "success_count s1 = success_count s" "failed_count s1 = failed_count s"
    "not_found_count s1 = not_found_count s"
    "deleted_count s1 = (if go then deleted_count s else deleted_count s + 1)"
  using assms
  by (auto simp: check_duration_def Let_def split: if_splits probe_result.splits)

lemma augment_length: "idx < length (df s) \<Longrightarrow> length (df (augment st ob idx f p s)) = length (df s)"
  by (simp add: augment_def Let_def at_set_length split: option.splits)

lemma augment_other_rows:
  "idx < length (df s) \<Longrightarrow> j \<noteq> idx \<Longrightarrow> df (augment st ob idx f p s) ! j = df s ! j"
  by (simp add: augment_def Let_def at_set_length at_set_nth_other split: option.splits)

lemma augment_other_columns:
  "idx < length (df s) \<Longrightarrow> c \<noteq> ''original_audio'' \<Longrightarrow> c \<noteq> augmented_column st \<Longrightarrow>
   (df (augment st ob idx f p s) ! j) c = (df s ! j) c"
  by (simp add: augment_def Let_def at_set_length at_set_cell_other split: option.splits)

lemma augment_counters:
  "success_count (augment st ob idx f p s) + failed_count (augment st ob idx f p s)
     = success_count s + failed_count s + 1"
  "success_count s \<le> success_count (augment st ob idx f p s)"
  "failed_count s \<le> failed_count (augment st ob idx f p s)"
  "not_found_count (augment st ob idx f p s) = not_found_count s"
  "deleted_count (augment st ob idx f p s) = deleted_count s"
  by (simp_all add: augment_def Let_def split: option.splits)

lemma process_row_cases:
  assumes "process_row st ob idx row s = Inr s'"
  obtains (not_wav) f where "row ''Recording Name'' = Some f" "\<not> endswith f ''.wav''" "s' = s"
  | (not_found) f where "row ''Recording Name'' = Some f" "endswith f ''.wav''" "\<not> path_exists ob"
      "s' = s\<lparr>not_found_count := not_found_count s + 1\<rparr>"
  | (filtered) f s1 where "row ''Recording Name'' = Some f" "endswith f ''.wav''" "path_exists ob"
      "check_duration st ob (path_join filtered_folder f) s = Inr (False, s1)" "s' = s1"
  | (augmented) f s1 where "row ''Recording Name'' = Some f" "endswith f ''.wav''" "path_exists ob"
      "check_duration st ob (path_join filtered_folder f) s = Inr (True, s1)"
      "s' = augment st ob idx f (path_join filtered_folder f) s1"
  using assms
  by (auto simp: process_row_def Let_def split: option.splits if_splits sum.splits prod.splits)

lemma process_row_length:
  assumes "process_row st ob idx row s = Inr s'" "idx < length (df s)"
  shows "length (df s') = length (df s)"
  using assms(1)
proof (cases rule: process_row_cases)
  case (augmented f s1)
  then show ?thesis using assms(2) by (simp add: augment_length check_duration_frame(1))
qed (simp_all add: check_duration_frame(1))

lemma process_row_other_rows:
  assumes "process_row st ob idx row s = Inr s'" "idx < length (df s)" "j \<noteq> idx"
  shows "df s' ! j = df s ! j"
  using assms(1)
proof (cases rule: process_row_cases)
  case (augmented f s1)
  then show ?thesis using assms(2,3) by (simp add: augment_other_rows check_duration_frame(1))
qed (simp_all add: check_duration_frame(1))

lemma process_row_other_columns:
  assumes "process_row st ob idx row s = Inr s'" "idx < length (df s)"
    "c \<noteq> ''original_audio''" "c \<noteq> augmented_column st"
  shows "(df s' ! j) c = (df s ! j) c"
  using assms(1)
proof (cases rule: process_row_cases)
  case (augmented f s1)
  then show ?thesis using assms(2-) by (simp add: augment_other_columns check_duration_frame(1))
qed (simp_all add: check_duration_frame(1))

lemma process_row_counters:
  assumes "process_row st ob idx row s = Inr s'"
  shows "total s' \<le> total s + 1 \<and>
    success_count s \<le> success_count s' \<and> failed_count s \<le> failed_count s' \<and>
    not_found_count s \<le> not_found_count s' \<and> deleted_count s \<le> deleted_count s'"
  using assms(1)
proof (cases rule: process_row_cases)
  case (augmented f s1)
  note cd = check_duration_frame[OF augmented(4)]
  note ac = augment_counters[where st=st and ob=ob and idx=idx and f=f
      and p="path_join filtered_folder f" and s=s1]
  show ?thesis using augmented(5) cd ac by (simp add: total_def)
qed (simp_all add: total_def check_duration_frame)

lemma loop_length:
  "loop st env irs s = Inr s' \<Longrightarrow> \<forall>(i, r) \<in> set irs. i < length (df s) \<Longrightarrow>
   length (df s') = length (df s)"
proof (induction irs arbitrary: s)
  case Nil
  then show ?case by simp
next
  case (Cons ir irs)
  obtain i r where ir: "ir = (i, r)" by (cases ir)
  from Cons.prems(1) ir obtain s1 where
    step: "process_row st (env i) i r s = Inr s1" and rest: "loop st env irs s1 = Inr s'"
    by (auto split: sum.splits)
  from Cons.prems(2) ir have "i < length (df s)" by simp
  with step have len: "length (df s1) = length (df s)" by (rule process_row_length)
  with Cons.prems(2) have "\<forall>(i, r) \<in> set irs. i < length (df s1)" by simp
  with rest have "length (df s') = length (df s1)" by (rule Cons.IH)
  with len show ?case by simp
qed

lemma loop_other_columns:
  "loop st env irs s = Inr s' \<Longrightarrow> \<forall>(i, r) \<in> set irs. i < length (df s) \<Longrightarrow>
   c \<noteq> ''original_audio'' \<Longrightarrow> c \<noteq> augmented_column st \<Longrightarrow> (df s' ! j) c = (df s ! j) c"
proof (induction irs arbitrary: s)
  case Nil
  then show ?case by simp
next
  case (Cons ir irs)
  obtain i r where ir: "ir = (i, r)" by (cases ir)
  from Cons.prems(1) ir obtain s1 where
    step: "process_row st (env i) i r s = Inr s1" and rest: "loop st env irs s1 = Inr s'"
    by (auto split: sum.splits)
  from Cons.prems(2) ir have i: "i < length (df s)" by simp
  with step have len: "length (df s1) = length (df s)" by (rule process_row_length)
  with Cons.prems(2) have "\<forall>(i, r) \<in> set irs. i < length (df s1)" by simp
  with rest Cons.prems(3,4) have "(df s' ! j) c = (df s1 ! j) c" by (intro Cons.IH)
  moreover from step i Cons.prems(3,4) have "(df s1 ! j) c = (df s ! j) c"
    by (rule process_row_other_columns)
  ultimately show ?case by simp
qed

lemma loop_untouched:
  "loop st env irs s = Inr s' \<Longrightarrow> \<forall>(i, r) \<in> set irs. i < length (df s) \<Longrightarrow>
   j \<notin> fst ` set irs \<Longrightarrow> df s' ! j = df s ! j"
proof (induction irs arbitrary: s)
  case Nil
  then show ?case by simp
next
  case (Cons ir irs)
  obtain i r where ir: "ir = (i, r)" by (cases ir)
  from Cons.prems(1) ir obtain s1 where
    step: "process_row st (env i) i r s = Inr s1" and rest: "loop st env irs s1 = Inr s'"
    by (auto split: sum.splits)
  from Cons.prems(2) ir have i: "i < length (df s)" by simp
  from Cons.prems(3) ir have ji: "j \<noteq> i" and jn: "j \<notin> fst ` set irs" by auto
  from step i have len: "length (df s1) = length (df s)" by (rule process_row_length)
  with Cons.prems(2) have "\<forall>(i, r) \<in> set irs. i < length (df s1)" by simp
  with rest jn have "df s' ! j = df s1 ! j" by (intro Cons.IH)
  moreover from step i ji have "df s1 ! j = df s ! j" by (rule process_row_other_rows)
  ultimately show ?case by simp
qed

text \<open>The final content of a row is what its own iteration left.\<close>

lemma loop_row_final:
  "loop st env irs s = Inr s' \<Longrightarrow> \<forall>(i, r) \<in> set irs. i < length (df s) \<Longrightarrow>
   distinct (map fst irs) \<Longrightarrow> (j, r) \<in> set irs \<Longrightarrow>
   \<exists>s1 s2. process_row st (env j) j r s1 = Inr s2 \<and> length (df s1) = length (df s) \<and>
     df s1 ! j = df s ! j \<and> df s' ! j = df s2 ! j"
proof (induction irs arbitrary: s)
  case Nil
  then show ?case by simp
next
  case (Cons ir irs)
  obtain i r0 where ir: "ir = (i, r0)" by (cases ir)
  from Cons.prems(1) ir obtain s1 where
    step: "process_row st (env i) i r0 s = Inr s1" and rest: "loop st env irs s1 = Inr s'"
    by (auto split: sum.splits)
  from Cons.prems(2) ir have i: "i < length (df s)" by simp
  from step i have len: "length (df s1) = length (df s)" by (rule process_row_length)
  with Cons.prems(2) have bound: "\<forall>(i, r) \<in> set irs. i < length (df s1)" by simp
  from Cons.prems(3) ir have fresh: "i \<notin> fst ` set irs" and dist: "distinct (map fst irs)"
    by simp_all
  show ?case
  proof (cases "j = i")
    case True
    with Cons.prems(4) ir fresh have "r = r0" by force
    from rest bound fresh True have "df s' ! j = df s1 ! j" by (simp add: loop_untouched)
    with step True \<open>r = r0\<close> show ?thesis by auto
  next
    case False
    with Cons.prems(4) ir have mem: "(j, r) \<in> set irs" by simp
    from False have ji: "j \<noteq> i" .
    from Cons.IH[OF rest bound dist mem] obtain t1 t2 where
      t: "process_row st (env j) j r t1 = Inr t2" "length (df t1) = length (df s1)"
         "df t1 ! j = df s1 ! j" "df s' ! j = df t2 ! j" by blast
    moreover from step i ji have "df s1 ! j = df s ! j" by (rule process_row_other_rows)
    ultimately show ?thesis using len by auto
  qed
qed

lemma loop_counters:
  "loop st env irs s = Inr s' \<Longrightarrow> total s' \<le> total s + length irs"
proof (induction irs arbitrary: s)
  case Nil
  then show ?case by simp
next
  case (Cons ir irs)
  obtain i r where ir: "ir = (i, r)" by (cases ir)
  from Cons.prems(1) ir obtain s1 where
    step: "process_row st (env i) i r s = Inr s1" and rest: "loop st env irs s1 = Inr s'"
    by (auto split: sum.splits)
  from process_row_counters[OF step] have "total s1 \<le> total s + 1" by simp
  moreover from rest have "total s' \<le> total s1 + length irs" by (rule Cons.IH)
  ultimately show ?case by simp
qed

lemma iterrows_bound: "\<forall>(i, r) \<in> set (iterrows d). i < length d"
  by (auto simp: iterrows_def in_set_zip)

lemma iterrows_distinct: "distinct (map fst (iterrows d))"
  by (simp add: iterrows_def)

lemma iterrows_mem: "j < length d \<Longrightarrow> (j, d ! j) \<in> set (iterrows d)"
  by (force simp: iterrows_def in_set_zip)

lemma iterrows_length: "length (iterrows d) = length d"
  by (simp add: iterrows_def)

lemma initial_state_df:
  "length (df (initial_state st df0)) = length df0"
  "j < length df0 \<Longrightarrow> df (initial_state st df0) ! j
     = (df0 ! j)(''original_audio'' \<mapsto> [], augmented_column st \<mapsto> [])"
  by (simp_all add: initial_state_def set_column_def)

lemma run_loop:
  "run st env df0 = Inr s \<Longrightarrow>
   loop st env (iterrows (df (initial_state st df0))) (initial_state st df0) = Inr s"
  by (simp add: run_def)

lemma iterrows_initial_bound:
  "\<forall>(i, r) \<in> set (iterrows (df (initial_state st df0))). i < length (df (initial_state st df0))"
  by (rule iterrows_bound)

section \<open>Evaluating the scripts on the small manifest\<close>

lemmas run_eval = run_def initial_state_def iterrows_def set_column_def process_row_def
  endswith_def path_join_def filtered_folder_def check_duration_def augment_def transform_def
  noisy_data_def noise_amp_def clip_def output_name_def str_replace.simps at_set_def Let_def

lemmas demo_eval = demo_obs_def demo_env_def demo_manifest_def demo_cell_def fun_eq_iff

lemma demo_volume_run: "run Volume demo_env demo_manifest = Inr demo_volume_final"
  by (simp add: run_eval demo_eval demo_volume_final_def)


lemma demo_noise_run: "run Noise demo_env demo_manifest = Inr demo_noise_final"
  by (simp add: run_eval demo_eval demo_noise_final_def)

section \<open>Samples written by the noise stage\<close>

lemma nan_noise_run: "run Noise nan_env one_row_manifest = Inr nan_noise_final"
  by (simp add: run_eval demo_eval nan_obs_def nan_env_def one_row_manifest_def nan_noise_final_def)

text \<open>
  Claim C7, as stated, for every input buffer and every draw of the noise: every sample of
  the written noise-augmented buffer lies within \<open>[-1, 1]\<close>. \<^verbatim>\<open>np.amax\<close> and \<^verbatim>\<open>np.clip\<close> pass
  NaN on: on the decoded buffer \<open>[0.25, NaN]\<close> the amplitude is NaN, the row succeeds and
  the buffer written is \<open>[NaN, NaN]\<close>.
\<close>

theorem noise_writes_nan_buffer:
  "run Noise nan_env one_row_manifest = Inr nan_noise_final \<and>
   sf_read (nan_env 0) = Some [Fin 0.25, NaN] \<and>
   success_count nan_noise_final = 1 \<and>
   WroteAudio ''augmented_noise/a_noise.wav'' [NaN, NaN] \<in> set (events nan_noise_final) \<and>
   NaN \<in> set [NaN, NaN] \<and> \<not> in_unit_range NaN"
proof -
  have "sf_read (nan_env 0) = Some [Fin 0.25, NaN]"
    by (simp add: nan_env_def nan_obs_def)
  moreover have "success_count nan_noise_final = 1"
    "WroteAudio ''augmented_noise/a_noise.wav'' [NaN, NaN] \<in> set (events nan_noise_final)"
    by (simp_all add: nan_noise_final_def)
  ultimately show ?thesis using nan_noise_run by simp
qed

lemma finite_sample_Fin: "finite_sample x \<Longrightarrow> \<exists>r. x = Fin r"
  by (cases x) simp_all

lemma fold_fmax_finite:
  "finite_sample x \<Longrightarrow> \<forall>y \<in> set xs. finite_sample y \<Longrightarrow> finite_sample (fold fmax xs x)"
proof (induction xs arbitrary: x)
  case Nil
  then show ?case by simp
next
  case (Cons y ys)
  from Cons.prems obtain a b where "x = Fin a" "y = Fin b"
    by (auto dest!: finite_sample_Fin)
  then have "finite_sample (fmax y x)" by simp
  with Cons.prems show ?case by (simp add: Cons.IH)
qed

lemma clip_finite_range: "in_unit_range (clip (Fin v) (- 1) 1)"
  by (simp add: clip_def)

lemma noisy_data_range:
  assumes "noisy_data u z data = Inr out" "\<forall>y \<in> set data. finite_sample y" "x \<in> set out"
  shows "in_unit_range x"
proof -
  from assms(1) obtain a where a: "noise_amp u data = Inr a"
    and out: "out = map (\<lambda>i. clip (fadd (data ! i) (fmul a (Fin (z i)))) (- 1.0) 1.0) [0..<length data]"
    by (auto simp: noisy_data_def split: sum.splits)
  from a obtain m where m: "amax data = Inr m" "a = fmul (Fin (0.02 * u)) m"
    by (auto simp: noise_amp_def split: sum.splits)
  from m(1) obtain d ds where d: "data = d # ds" "m = fold fmax ds d"
    by (cases data) auto
  with assms(2) have "finite_sample m" by (simp add: fold_fmax_finite)
  then obtain mr where "m = Fin mr" by (auto dest: finite_sample_Fin)
  with m(2) have af: "a = Fin (0.02 * u * mr)" by simp
  from out assms(3) obtain i where i: "i < length data"
    "x = clip (fadd (data ! i) (fmul a (Fin (z i)))) (- 1.0) 1.0" by auto
  from i(1) assms(2) have "finite_sample (data ! i)" by simp
  then obtain r where "data ! i = Fin r" by (auto dest: finite_sample_Fin)
  with i(2) af have "x = clip (Fin (r + 0.02 * u * mr * z i)) (- 1) 1" by simp
  then show ?thesis by (simp only: clip_finite_range)
qed

lemma check_duration_events:
  assumes "check_duration st ob p s = Inr (go, s1)"
  shows "events s1 = events s \<or> events s1 = events s @ [Probed p]"
  using assms
  by (auto simp: check_duration_def Let_def split: if_splits probe_result.splits)

lemma augment_events:
  "events (augment st ob idx f p s) =
     (case transform st ob p (path_join (augmented_folder st) (output_name st f)) of
        None \<Rightarrow> events s | Some ev \<Rightarrow> events s @ [ev])"
  by (simp add: augment_def Let_def split: option.splits)

lemma transform_written_source:
  assumes "transform st ob ip op = Some (WroteAudio p out)"
  shows "\<exists>data. sf_read ob = Some data \<and>
    noisy_data (uniform_draw ob) (normal_draw ob) data = Inr out"
  using assms by (auto simp: transform_def split: if_splits option.splits sum.splits)

lemma process_row_written_source:
  assumes "process_row st ob idx row s = Inr s'" "WroteAudio p out \<in> set (events s')"
  shows "WroteAudio p out \<in> set (events s) \<or>
    (\<exists>data. sf_read ob = Some data \<and>
       noisy_data (uniform_draw ob) (normal_draw ob) data = Inr out)"
  using assms(1)
proof (cases rule: process_row_cases)
  case (filtered f s1)
  with check_duration_events[OF filtered(4)] assms(2) show ?thesis by auto
next
  case (augmented f s1)
  from check_duration_events[OF augmented(4)]
  have old: "WroteAudio p out \<in> set (events s1) \<Longrightarrow> WroteAudio p out \<in> set (events s)" by auto
  let ?t = "transform st ob (path_join filtered_folder f)
      (path_join (augmented_folder st) (output_name st f))"
  show ?thesis
  proof (cases ?t)
    case None
    with assms(2) augmented(5) old show ?thesis by (simp add: augment_events)
  next
    case (Some ev)
    with assms(2) augmented(5) have "WroteAudio p out \<in> set (events s1) \<or> ev = WroteAudio p out"
      by (auto simp: augment_events)
    then show ?thesis
    proof
      assume "WroteAudio p out \<in> set (events s1)"
      with old show ?thesis by simp
    next
      assume "ev = WroteAudio p out"
      with Some have "?t = Some (WroteAudio p out)" by simp
      from transform_written_source[OF this] show ?thesis by blast
    qed
  qed
qed (use assms(2) in simp_all)

lemma loop_written_source:
  "loop st env irs s = Inr s' \<Longrightarrow> WroteAudio p out \<in> set (events s') \<Longrightarrow>
   WroteAudio p out \<in> set (events s) \<or>
   (\<exists>i data. i \<in> fst ` set irs \<and> sf_read (env i) = Some data \<and>
      noisy_data (uniform_draw (env i)) (normal_draw (env i)) data = Inr out)"
proof (induction irs arbitrary: s)
  case Nil
  then show ?case by simp
next
  case (Cons ir irs)
  obtain i r where ir: "ir = (i, r)" by (cases ir)
  from Cons.prems(1) ir obtain s1 where
    step: "process_row st (env i) i r s = Inr s1" and rest: "loop st env irs s1 = Inr s'"
    by (auto split: sum.splits)
  from Cons.IH[OF rest Cons.prems(2)]
  show ?case
  proof
    assume "WroteAudio p out \<in> set (events s1)"
    from process_row_written_source[OF step this] ir show ?thesis by auto
  next
    assume "\<exists>i data. i \<in> fst ` set irs \<and> sf_read (env i) = Some data \<and>
      noisy_data (uniform_draw (env i)) (normal_draw (env i)) data = Inr out"
    then show ?thesis by auto
  qed
qed

lemma iterrows_fst: "i \<in> fst ` set (iterrows d) \<Longrightarrow> i < length d"
  using iterrows_bound[of d] by force

text \<open>
  Claim C7, amended. In the additive-noise stage, for every decoded buffer of finite
  samples and every draw of the noise, every sample of the written noise-augmented buffer
  is finite and lies within \<open>[-1, 1]\<close> after clipping; and every buffer a completed run
  writes is the clipped noisy version of the buffer decoded for one of the manifest rows.
\<close>

theorem noise_written_finite_samples_in_range:
  assumes "run st env df0 = Inr s" "WroteAudio p out \<in> set (events s)"
  shows "(\<exists>i data. i < length df0 \<and> sf_read (env i) = Some data \<and>
       noisy_data (uniform_draw (env i)) (normal_draw (env i)) data = Inr out) \<and>
    (\<forall>u z data. noisy_data u z data = Inr out \<longrightarrow> (\<forall>y \<in> set data. finite_sample y) \<longrightarrow>
       (\<forall>x \<in> set out. in_unit_range x))"
proof -
  from assms(1) have "loop st env (iterrows (df (initial_state st df0))) (initial_state st df0) = Inr s"
    by (rule run_loop)
  from loop_written_source[OF this assms(2)]
  obtain i data where "i \<in> fst ` set (iterrows (df (initial_state st df0)))"
    "sf_read (env i) = Some data"
    "noisy_data (uniform_draw (env i)) (normal_draw (env i)) data = Inr out"
    by (auto simp: initial_state_def)
  moreover from this(1) have "i < length df0"
    using iterrows_fst initial_state_df(1) by metis
  ultimately have "\<exists>i data. i < length df0 \<and> sf_read (env i) = Some data \<and>
       noisy_data (uniform_draw (env i)) (normal_draw (env i)) data = Inr out" by blast
  moreover have "\<forall>u z data. noisy_data u z data = Inr out \<longrightarrow> (\<forall>y \<in> set data. finite_sample y) \<longrightarrow>
       (\<forall>x \<in> set out. in_unit_range x)"
    using noisy_data_range by blast
  ultimately show ?thesis by (rule conjI)
qed

lemma demo_noisy_data:
  "noisy_data (uniform_draw (demo_env 0)) (normal_draw (demo_env 0)) [Fin (- 0.5), Fin 0.25, Fin 0.9]
     = Inr [Fin (- 1), Fin 0.286, Fin 1]"
  by (simp add: demo_env_def demo_obs_def noisy_data_def noise_amp_def clip_def)

theorem noise_written_finite_samples_in_range_witness:
  "run Noise demo_env demo_manifest = Inr demo_noise_final \<and>
   WroteAudio ''augmented_noise/a_noise.wav'' [Fin (- 1), Fin 0.286, Fin 1]
     \<in> set (events demo_noise_final) \<and>
   noisy_data (uniform_draw (demo_env 0)) (normal_draw (demo_env 0)) [Fin (- 0.5), Fin 0.25, Fin 0.9]
     = Inr [Fin (- 1), Fin 0.286, Fin 1] \<and>
   finite_sample (Fin (- 0.5)) \<and> finite_sample (Fin 0.25) \<and> finite_sample (Fin 0.9) \<and>
   in_unit_range (Fin (- 1)) \<and> in_unit_range (Fin 0.286) \<and> in_unit_range (Fin 1)"
proof -
  have w: "WroteAudio ''augmented_noise/a_noise.wav'' [Fin (- 1), Fin 0.286, Fin 1]
      \<in> set (events demo_noise_final)"
    by (simp add: demo_noise_final_def)
  have f: "\<forall>y \<in> set [Fin (- 0.5), Fin 0.25, Fin 0.9]. finite_sample y" by simp
  from noise_written_finite_samples_in_range[OF demo_noise_run w] demo_noisy_data f
  have "\<forall>x \<in> set [Fin (- 1), Fin 0.286, Fin 1]. in_unit_range x" by blast
  then have "in_unit_range (Fin (- 1))" "in_unit_range (Fin 0.286)" "in_unit_range (Fin 1)"
    by simp_all
  moreover have "finite_sample (Fin (- 0.5))" "finite_sample (Fin 0.25)" "finite_sample (Fin 0.9)"
    by simp_all
  ultimately show ?thesis using demo_noise_run w demo_noisy_data by blast
qed

section \<open>The noise amplitude\<close>

text \<open>
  Claim C1. The specification takes the noise amplitude to be
  \<open>0.02 \<times> U(0.5, 1.0) \<times>\<close> the peak absolute sample. The script multiplies by
  \<^verbatim>\<open>np.amax(data)\<close>, the largest signed sample. On the buffer \<open>[-0.5, 0.25]\<close> with the draw
  \<open>0.5\<close> the script's amplitude is \<open>0.0025\<close>, the specified one is \<open>0.005\<close>.
\<close>

theorem noise_amp_is_signed_maximum_not_peak:
  "noise_amp 0.5 [Fin (- 0.5), Fin 0.25] = Inr (Fin 0.0025) \<and>
   spec_noise_amp 0.5 [Fin (- 0.5), Fin 0.25] = Inr (Fin 0.005)"
  by (simp add: noise_amp_def spec_noise_amp_def spec_peak_absolute_sample_def)

text \<open>
  On a buffer without a positive sample the script's amplitude is not positive.
\<close>

lemma noise_amp_negative_buffer: "noise_amp 0.5 [Fin (- 0.5), Fin (- 0.25)] = Inr (Fin (- 0.0025))"
  by (simp add: noise_amp_def)

text \<open>
  The two amplitudes agree on every buffer of finite samples whose peak is reached by a
  positive sample.
\<close>

lemma fold_fmax_Fin: "fold fmax (map Fin xs) (Fin x) = Fin (fold max xs x)"
  by (induction xs arbitrary: x) (simp_all add: max.commute)

lemma fold_max_Max: "fold max xs (x::real) = Max (set (x # xs))"
  by (rule Max.set_eq_fold[symmetric])

lemma amax_Fin:
  assumes "xs \<noteq> []"
  shows "amax (map Fin xs) = Inr (Fin (Max (set xs)))"
proof -
  from assms obtain x xs' where Cons: "xs = x # xs'" by (cases xs) auto
  have "amax (map Fin (x # xs')) = Inr (Fin (fold max xs' x))"
    by (simp add: fold_fmax_Fin)
  also have "fold max xs' x = Max (set (x # xs'))" by (rule fold_max_Max)
  finally show ?thesis using Cons by simp
qed

lemma noise_amp_agrees_when_peak_is_positive:
  assumes "m \<in> set xs" "\<forall>x \<in> set xs. \<bar>x\<bar> \<le> m"
  shows "noise_amp u (map Fin xs) = spec_noise_amp u (map Fin xs)"
proof -
  from assms(1) have ne: "xs \<noteq> []" "map abs xs \<noteq> []" by auto
  have fin: "finite (set xs)" by simp
  have "Max (set xs) = m"
    using assms fin by (intro Max_eqI) (auto intro: order_trans[OF abs_ge_self])
  with ne(1) have code: "amax (map Fin xs) = Inr (Fin m)" by (simp add: amax_Fin)
  have "Max (set (map abs xs)) = m"
  proof (intro Max_eqI)
    from assms have "\<bar>m\<bar> = m" by (metis abs_ge_zero abs_of_nonneg order_trans)
    with assms(1) show "m \<in> set (map abs xs)" by force
  qed (use assms(2) in auto)
  with amax_Fin[OF ne(2)] have "amax (map Fin (map abs xs)) = Inr (Fin m)" by simp
  moreover have "map fabs (map Fin xs) = map Fin (map abs xs)" by simp
  ultimately have "spec_peak_absolute_sample (map Fin xs) = Inr (Fin m)"
    by (simp only: spec_peak_absolute_sample_def)
  with code show ?thesis by (simp add: noise_amp_def spec_noise_amp_def)
qed

section \<open>Derived file names\<close>

text \<open>
  When \<^verbatim>\<open>.wav\<close> occurs in a name only as its final extension, \<^verbatim>\<open>replace\<close> rewrites that
  extension alone, and the script's name is the specified one.
\<close>

lemma str_replace_last_only:
  assumes "old \<noteq> []" "\<forall>k < length pre. take (length old) (drop k (pre @ old)) \<noteq> old"
  shows "str_replace old new (pre @ old) = pre @ new"
  using assms(2)
proof (induction pre)
  case Nil
  from assms(1) have "str_replace old new [] = []" by (simp add: str_replace.simps)
  with assms(1) show ?case by (simp add: str_replace.simps[of old new old])
next
  case (Cons c pre)
  from Cons.prems have no: "take (length old) (c # pre @ old) \<noteq> old" by force
  have "\<forall>k < length pre. take (length old) (drop k (pre @ old)) \<noteq> old"
  proof (intro allI impI)
    fix k assume "k < length pre"
    then have "Suc k < length (c # pre)" by simp
    with Cons.prems have "take (length old) (drop (Suc k) ((c # pre) @ old)) \<noteq> old" by blast
    then show "take (length old) (drop k (pre @ old)) \<noteq> old" by simp
  qed
  then have IH: "str_replace old new (pre @ old) = pre @ new" by (rule Cons.IH)
  from assms(1) no have "str_replace old new (c # pre @ old) = c # str_replace old new (pre @ old)"
    by (simp add: str_replace.simps[of old new "c # pre @ old"])
  with IH show ?case by simp
qed

lemma output_name_single_extension:
  assumes "endswith f ''.wav''"
    "\<forall>k. k + 4 < length f \<longrightarrow> take 4 (drop k f) \<noteq> ''.wav''"
  shows "output_name st f = spec_output_name st f"
proof -
  let ?pre = "take (length f - 4) f"
  have n: "length ''.wav'' = 4" by simp
  from assms(1) have "length ''.wav'' \<le> length f \<and> drop (length f - length ''.wav'') f = ''.wav''"
    unfolding endswith_def .
  then have len: "4 \<le> length f" and suf: "drop (length f - 4) f = ''.wav''"
    unfolding n by blast+
  have eq: "?pre @ ''.wav'' = f"
    using append_take_drop_id[of "length f - 4" f] unfolding suf .
  have "\<forall>k < length ?pre. take (length ''.wav'') (drop k (?pre @ ''.wav'')) \<noteq> ''.wav''"
  proof (intro allI impI)
    fix k assume "k < length ?pre"
    with len have "k + 4 < length f" by simp
    with assms(2) have ne: "take 4 (drop k f) \<noteq> ''.wav''" by blast
    show "take (length ''.wav'') (drop k (?pre @ ''.wav'')) \<noteq> ''.wav''"
      unfolding n eq by (rule ne)
  qed
  then have "str_replace ''.wav'' (replacement st) (?pre @ ''.wav'') = ?pre @ replacement st"
    by (intro str_replace_last_only) simp_all
  then have "str_replace ''.wav'' (replacement st) f = ?pre @ replacement st"
    unfolding eq .
  then show ?thesis
    unfolding output_name_def spec_output_name_def n .
qed

text \<open>
  The conversion script names its output with \<^verbatim>\<open>rsplit(".", 1)\<close>, which touches the last
  extension only, so a recording \<open>a.wav.webm\<close> is kept as \<open>a.wav.wav\<close>: names with an
  inner \<^verbatim>\<open>.wav\<close> do reach the augmentation scripts.
\<close>

lemma convert_keeps_inner_wav_name:
  "convert_file \<lparr>c_ffmpeg_ok = True, c_probe = Stdout (Some (Fin 10)), c_copy_ok = True\<rparr>
     ''a.wav.webm'' convert_start
   = convert_start\<lparr>kept_count := 1, filtered_files := [''a.wav.wav'']\<rparr>"
  by (simp add: convert_file_def convert_start_def endswith_def rsplit_dot_head_def threshold_sec_def)

text \<open>
  Claim C2. The derived name should be the source name with the transform suffix
  substituted only for the final \<^verbatim>\<open>.wav\<close>, also when \<^verbatim>\<open>.wav\<close> occurs earlier in the name.
  The scripts call \<^verbatim>\<open>filename.replace('.wav', ...)\<close>, which rewrites every occurrence: for
  \<open>a.wav.wav\<close> the four stages give \<open>a_2x.wav_2x.wav\<close>, \<open>a_volume.wav_volume.wav\<close>,
  \<open>a_noise.wav_noise.wav\<close> and \<open>a_lowpass.wav_lowpass.wav\<close>, where the specified name of the
  speed stage is \<open>a.wav_2x.wav\<close>; the speed script writes its one derived file under the
  doubled name.
\<close>

theorem output_name_replaces_every_occurrence:
  "output_name Speed2x ''a.wav.wav'' = ''a_2x.wav_2x.wav'' \<and>
   output_name Volume ''a.wav.wav'' = ''a_volume.wav_volume.wav'' \<and>
   output_name Noise ''a.wav.wav'' = ''a_noise.wav_noise.wav'' \<and>
   output_name Lowpass ''a.wav.wav'' = ''a_lowpass.wav_lowpass.wav'' \<and>
   spec_output_name Speed2x ''a.wav.wav'' = ''a.wav_2x.wav'' \<and>
   process_row Speed2x demo_obs 0 [''Recording Name'' \<mapsto> ''a.wav.wav''] 
       (initial_state Speed2x [[''Recording Name'' \<mapsto> ''a.wav.wav'']])
     = Inr \<lparr>df = [demo_cell ''augmented_audio_2x'' ''a.wav.wav'' ''filteredforwhisper/a.wav.wav''
                    ''augmented_2x/a_2x.wav_2x.wav''],
            success_count = 1, failed_count = 0, not_found_count = 0, deleted_count = 0,
            events = [Transcoded ''filteredforwhisper/a.wav.wav'' ''augmented_2x/a_2x.wav_2x.wav'']\<rparr>"
  by (simp add: run_eval demo_eval spec_output_name_def)

section \<open>The duration filter\<close>


lemma transform_probe_irrelevant [simp]: "transform st (ob\<lparr>probe := x\<rparr>) p q = transform st ob p q"
  by (simp add: transform_def split: option.splits sum.splits)

lemma augment_probe_irrelevant [simp]:
  "augment st (ob\<lparr>probe := x\<rparr>) idx f p s = augment st ob idx f p s"
  by (simp add: augment_def)








text \<open>
  Claim C4, as stated, for every script that probes duration: unparsable probe output
  counts as zero duration and never makes the row a failure. In the conversion script the
  \<^verbatim>\<open>float\<close> conversion has no handler of its own: the file is appended to the failed list
  and is neither kept nor skipped.
\<close>

theorem convert_counts_unparsable_probe_as_failed:
  "convert_file \<lparr>c_ffmpeg_ok = True, c_probe = Stdout None, c_copy_ok = True\<rparr> ''a.webm''
     convert_start
   = convert_start\<lparr>failed_files := [''a.webm'']\<rparr> \<and>
   kept_count (convert_file \<lparr>c_ffmpeg_ok = True, c_probe = Stdout None, c_copy_ok = True\<rparr>
     ''a.webm'' convert_start) = 0"
  by (simp add: convert_file_def convert_start_def endswith_def)

text \<open>
  Claim C4, amended. In the three augmentation scripts that probe duration (volume, noise,
  low-pass), when the probe output cannot be parsed the duration is treated as zero: the
  row is processed exactly as with a probed duration of zero, it passes the 30 second
  filter and goes on to the transform, the filtered-out counter stays, and the row is
  counted as failed only when the transform itself fails.
\<close>

theorem unparsable_probe_is_zero_duration:
  assumes "probes_duration st" "row ''Recording Name'' = Some f" "endswith f ''.wav''"
    "path_exists ob" "probe ob = Stdout None"
  shows "process_row st ob idx row s
      = process_row st (ob\<lparr>probe := Stdout (Some (Fin 0))\<rparr>) idx row s \<and>
    process_row st ob idx row s
      = Inr (augment st ob idx f (path_join filtered_folder f)
               (s\<lparr>events := events s @ [Probed (path_join filtered_folder f)]\<rparr>)) \<and>
    (\<forall>s'. process_row st ob idx row s = Inr s' \<longrightarrow>
       deleted_count s' = deleted_count s \<and>
       (transform st ob (path_join filtered_folder f)
          (path_join (augmented_folder st) (output_name st f)) \<noteq> None \<longrightarrow>
        failed_count s' = failed_count s \<and> success_count s' = success_count s + 1))"
  using assms
  by (auto simp: process_row_def check_duration_def Let_def augment_def split: option.splits)

theorem unparsable_probe_is_zero_duration_witness:
  "probes_duration Volume \<and> (demo_manifest ! 3) ''Recording Name'' = Some ''d.wav'' \<and>
   endswith ''d.wav'' ''.wav'' \<and> path_exists (demo_env 3) \<and> probe (demo_env 3) = Stdout None \<and>
   process_row Volume (demo_env 3) 3 (demo_manifest ! 3) (initial_state Volume demo_manifest)
     = process_row Volume ((demo_env 3)\<lparr>probe := Stdout (Some (Fin 0))\<rparr>) 3 (demo_manifest ! 3)
         (initial_state Volume demo_manifest)"
proof -
  have h: "probes_duration Volume" "(demo_manifest ! 3) ''Recording Name'' = Some ''d.wav''"
    "endswith ''d.wav'' ''.wav''" "path_exists (demo_env 3)" "probe (demo_env 3) = Stdout None"
    by (simp_all add: demo_manifest_def endswith_def demo_env_def demo_obs_def)
  from unparsable_probe_is_zero_duration[where row="demo_manifest ! 3" and ob="demo_env 3"
      and idx=3 and s="initial_state Volume demo_manifest", OF h] h
  show ?thesis by blast
qed

section \<open>The output manifest\<close>

lemma augmented_column_neq [simp]:
  "augmented_column st \<noteq> ''Recording Name''" "augmented_column st \<noteq> ''original_audio''"
  "''Recording Name'' \<noteq> augmented_column st" "''original_audio'' \<noteq> augmented_column st"
  by (cases st; simp)+

lemma at_set_defined:
  "idx < length d \<Longrightarrow> (d ! j) c' \<noteq> None \<Longrightarrow> (at_set d idx c v ! j) c' \<noteq> None"
  by (cases "j = idx") (simp_all add: at_set_def)

lemma augment_defined:
  assumes "idx < length (df s)" "(df s ! j) c \<noteq> None"
  shows "(df (augment st ob idx f p s) ! j) c \<noteq> None"
proof -
  let ?d1 = "at_set (df s) idx ''original_audio'' p"
  from assms have d1: "(?d1 ! j) c \<noteq> None" by (rule at_set_defined)
  from assms(1) have len: "idx < length ?d1" by (simp add: at_set_length)
  show ?thesis
  proof (cases "transform st ob p (path_join (augmented_folder st) (output_name st f))")
    case None
    with d1 show ?thesis by (simp add: augment_def Let_def del: not_None_eq)
  next
    case (Some ev)
    from len d1 have "(at_set ?d1 idx (augmented_column st)
        (path_join (augmented_folder st) (output_name st f)) ! j) c \<noteq> None"
      by (rule at_set_defined)
    with Some show ?thesis by (simp add: augment_def Let_def del: not_None_eq)
  qed
qed

lemma process_row_defined:
  assumes "process_row st ob idx row s = Inr s'" "idx < length (df s)" "(df s ! j) c \<noteq> None"
  shows "(df s' ! j) c \<noteq> None"
  using assms(1)
proof (cases rule: process_row_cases)
  case (augmented f s1)
  from augmented(4) have "df s1 = df s" by (rule check_duration_frame(1))
  with assms(2,3) have "idx < length (df s1)" "(df s1 ! j) c \<noteq> None" by simp_all
  then have "(df (augment st ob idx f (path_join filtered_folder f) s1) ! j) c \<noteq> None"
    by (rule augment_defined)
  with augmented(5) show ?thesis by simp
next
  case (filtered f s1)
  from filtered(4) have "df s1 = df s" by (rule check_duration_frame(1))
  with assms(3) filtered(5) show ?thesis by simp
qed (use assms(3) in simp_all)

lemma loop_defined:
  "loop st env irs s = Inr s' \<Longrightarrow> \<forall>(i, r) \<in> set irs. i < length (df s) \<Longrightarrow>
   (df s ! j) c \<noteq> None \<Longrightarrow> (df s' ! j) c \<noteq> None"
proof (induction irs arbitrary: s)
  case Nil
  then show ?case by simp
next
  case (Cons ir irs)
  obtain i r where ir: "ir = (i, r)" by (cases ir)
  from Cons.prems(1) ir obtain s1 where
    step: "process_row st (env i) i r s = Inr s1" and rest: "loop st env irs s1 = Inr s'"
    by (auto split: sum.splits)
  from Cons.prems(2) ir have i: "i < length (df s)" by simp
  from step i have len: "length (df s1) = length (df s)" by (rule process_row_length)
  with Cons.prems(2) have bound: "\<forall>(i, r) \<in> set irs. i < length (df s1)" by simp
  from step i Cons.prems(3) have "(df s1 ! j) c \<noteq> None" by (rule process_row_defined)
  with rest bound show ?case by (rule Cons.IH)
qed

lemma process_row_not_found:
  assumes "row ''Recording Name'' = Some f" "endswith f ''.wav''" "\<not> path_exists ob"
  shows "process_row st ob idx row s = Inr (s\<lparr>not_found_count := not_found_count s + 1\<rparr>)"
  using assms by (simp add: process_row_def)

lemma initial_row_name:
  "i < length df0 \<Longrightarrow> (df (initial_state st df0) ! i) ''Recording Name'' = (df0 ! i) ''Recording Name''"
  by (simp add: initial_state_df(2))

lemma run_row_final:
  assumes "run st env df0 = Inr s'" "i < length df0"
  shows "\<exists>s1 s2. process_row st (env i) i (df (initial_state st df0) ! i) s1 = Inr s2 \<and>
     length (df s1) = length df0 \<and>
     df s1 ! i = df (initial_state st df0) ! i \<and> df s' ! i = df s2 ! i"
proof -
  let ?s0 = "initial_state st df0"
  from assms(2) have "i < length (df ?s0)" by (simp add: initial_state_df(1))
  then have mem: "(i, df ?s0 ! i) \<in> set (iterrows (df ?s0))" by (rule iterrows_mem)
  from loop_row_final[OF run_loop[OF assms(1)] iterrows_initial_bound iterrows_distinct mem]
  show ?thesis by (simp add: initial_state_df(1))
qed

lemma check_duration_go:
  assumes "check_duration st ob p s = Inr (go, s1)"
  shows "go = passes_duration_filter st ob"
  using assms
  by (auto simp: check_duration_def passes_duration_filter_def Let_def
      split: if_splits probe_result.splits)

lemma augment_row:
  assumes "idx < length (df s)"
  shows "df (augment st ob idx f p s) ! idx =
    (case transform st ob p (path_join (augmented_folder st) (output_name st f)) of
       None \<Rightarrow> (df s ! idx)(''original_audio'' \<mapsto> p)
     | Some ev \<Rightarrow> (df s ! idx)(''original_audio'' \<mapsto> p,
         augmented_column st \<mapsto> path_join (augmented_folder st) (output_name st f)))"
  using assms
  by (simp add: augment_def Let_def at_set_length at_set_nth_same split: option.splits)

lemma process_row_row:
  assumes "process_row st ob idx row s = Inr s'" "idx < length (df s)"
    "row ''Recording Name'' = r0 ''Recording Name''"
    "df s ! idx = r0(''original_audio'' \<mapsto> [], augmented_column st \<mapsto> [])"
  shows "df s' ! idx = final_row st ob r0"
  using assms(1)
proof (cases rule: process_row_cases)
  case (not_wav f)
  from not_wav(1) assms(3) have n: "r0 ''Recording Name'' = Some f" by simp
  from not_wav(2,3) assms(4) show ?thesis by (simp add: final_row_def n)
next
  case (not_found f)
  from not_found(1) assms(3) have n: "r0 ''Recording Name'' = Some f" by simp
  from not_found(2-) assms(4) show ?thesis by (simp add: final_row_def n)
next
  case (filtered f s1)
  from filtered(1) assms(3) have n: "r0 ''Recording Name'' = Some f" by simp
  from filtered(4) have "\<not> passes_duration_filter st ob" "df s1 = df s"
    using check_duration_go check_duration_frame(1) by blast+
  with filtered(2,3,5) assms(4) show ?thesis by (simp add: final_row_def n)
next
  case (augmented f s1)
  from augmented(1) assms(3) have n: "r0 ''Recording Name'' = Some f" by simp
  from augmented(4) have pass: "passes_duration_filter st ob" and d: "df s1 = df s"
    using check_duration_go check_duration_frame(1) by blast+
  from d assms(2) have "idx < length (df s1)" by simp
  from augment_row[OF this] d augmented(5) assms(4)
  have "df s' ! idx =
    (case transform st ob (path_join filtered_folder f)
            (path_join (augmented_folder st) (output_name st f)) of
       None \<Rightarrow> (r0(''original_audio'' \<mapsto> [], augmented_column st \<mapsto> []))
                  (''original_audio'' \<mapsto> path_join filtered_folder f)
     | Some ev \<Rightarrow> (r0(''original_audio'' \<mapsto> [], augmented_column st \<mapsto> []))
         (''original_audio'' \<mapsto> path_join filtered_folder f,
          augmented_column st \<mapsto> path_join (augmented_folder st) (output_name st f)))"
    by (simp split: option.splits)
  with augmented(2,3) pass show ?thesis
    by (simp add: final_row_def Let_def n)
qed

lemma chained_noise_run: "run Noise demo_env chained_manifest = Inr chained_noise_final"
  by (simp add: run_eval demo_eval chained_manifest_def chained_noise_final_def)

text \<open>
  A field of a text column on its way through the reader and the writer: a recording named
  \<open>NA\<close> is loaded as a missing value, reads as \<open>nan\<close> in the loop, is skipped by every
  script and is written back blank.
\<close>

lemma missing_value_name_written_blank:
  "read_csv_field ''NA'' = None \<and> str_field (read_csv_field ''NA'') = ''nan'' \<and>
   \<not> endswith (str_field (read_csv_field ''NA'')) ''.wav'' \<and>
   to_csv_field (read_csv_field ''NA'') = []"
  by (simp add: read_csv_field_def na_values_def str_field_def to_csv_field_def endswith_def)

text \<open>
  Claim C5, as stated: the run only adds new columns and fills their cells. The scripts
  start with \<^verbatim>\<open>df['original_audio'] = ""\<close>, which blanks the column when the input manifest
  already has it, as the manifest written by an earlier stage does. On such a manifest the
  noise script leaves the cell of the absent recording \<open>b.wav\<close>, filled in the input, blank.
\<close>

theorem chained_manifest_loses_filled_cell:
  "main Noise (Some chained_manifest) demo_env = (0, Some chained_noise_final) \<and>
   (chained_manifest ! 1) ''original_audio'' = Some ''filteredforwhisper/b.wav'' \<and>
   (df chained_noise_final ! 1) ''original_audio'' = Some []"
proof -
  have "main Noise (Some chained_manifest) demo_env = (0, Some chained_noise_final)"
    by (simp add: main_def chained_noise_run)
  moreover have "(chained_manifest ! 1) ''original_audio'' = Some ''filteredforwhisper/b.wav''"
    by (simp add: chained_manifest_def)
  moreover have "(df chained_noise_final ! 1) ''original_audio'' = Some []"
    by (simp add: chained_noise_final_def)
  ultimately show ?thesis by blast
qed

text \<open>
  Claim C5, amended. Between the frame loaded from the input manifest and the frame handed
  to the writer at completion, the number of rows and their order are the same and every
  cell outside the \<open>original_audio\<close> column and the stage's derived-path column, the
  recording name among them, is unchanged: the run never adds, removes or reorders rows.
  The two path columns are created, or blanked when the input already has them, and then
  hold for each row: the source path and the derived path when the row's transform
  succeeded, the source path and a blank when it failed, two blanks for every other row.
\<close>

theorem output_manifest_keeps_rows:
  assumes "main st (Some df0) env = (status, Some s)"
  shows "length (df s) = length df0 \<and>
    (\<forall>i < length df0.
       df s ! i = final_row st (env i) (df0 ! i) \<and>
       (df s ! i) ''Recording Name'' = (df0 ! i) ''Recording Name'' \<and>
       (\<forall>c. c \<noteq> ''original_audio'' \<longrightarrow> c \<noteq> augmented_column st \<longrightarrow> (df s ! i) c = (df0 ! i) c) \<and>
       (df s ! i) ''original_audio'' \<noteq> None \<and> (df s ! i) (augmented_column st) \<noteq> None)"
proof -
  let ?s0 = "initial_state st df0"
  from assms have r: "run st env df0 = Inr s"
    by (auto simp: main_def split: sum.splits)
  then have lp: "loop st env (iterrows (df ?s0)) ?s0 = Inr s" by (rule run_loop)
  note bound = iterrows_initial_bound[of st df0]
  from lp bound have len: "length (df s) = length df0"
    by (simp add: loop_length initial_state_df(1))
  have other: "(df s ! i) c = (df0 ! i) c"
    if "i < length df0" "c \<noteq> ''original_audio''" "c \<noteq> augmented_column st" for i c
  proof -
    from lp bound that(2,3) have "(df s ! i) c = (df ?s0 ! i) c" by (rule loop_other_columns)
    with that show ?thesis by (simp add: initial_state_df(2))
  qed
  have defined: "(df s ! i) ''original_audio'' \<noteq> None \<and> (df s ! i) (augmented_column st) \<noteq> None"
    if "i < length df0" for i
  proof -
    from that have a: "(df ?s0 ! i) ''original_audio'' \<noteq> None"
      and b: "(df ?s0 ! i) (augmented_column st) \<noteq> None"
      by (simp_all add: initial_state_df(2))
    from lp bound a have "(df s ! i) ''original_audio'' \<noteq> None" by (rule loop_defined)
    moreover from lp bound b have "(df s ! i) (augmented_column st) \<noteq> None" by (rule loop_defined)
    ultimately show ?thesis by (rule conjI)
  qed
  have exact: "df s ! i = final_row st (env i) (df0 ! i)" if "i < length df0" for i
  proof -
    let ?r = "df ?s0 ! i"
    from that have r0: "?r = (df0 ! i)(''original_audio'' \<mapsto> [], augmented_column st \<mapsto> [])"
      by (rule initial_state_df(2))
    from run_row_final[OF r that] obtain s1 s2 where
      s12: "process_row st (env i) i ?r s1 = Inr s2" "length (df s1) = length df0"
        "df s1 ! i = ?r" "df s ! i = df s2 ! i" by blast
    from s12(2) that have i: "i < length (df s1)" by simp
    from that have name: "?r ''Recording Name'' = (df0 ! i) ''Recording Name''"
      by (rule initial_row_name)
    from s12(3) r0 have cur0: "df s1 ! i = (df0 ! i)(''original_audio'' \<mapsto> [], augmented_column st \<mapsto> [])"
      by simp
    from process_row_row[OF s12(1) i name cur0] s12(4) show ?thesis by simp
  qed
  from len other defined exact show ?thesis by simp
qed

theorem output_manifest_keeps_rows_witness:
  "main Volume (Some demo_manifest) demo_env = (0, Some demo_volume_final) \<and>
   length (df demo_volume_final) = length demo_manifest \<and> (3::nat) < length demo_manifest \<and>
   df demo_volume_final ! 3 = final_row Volume (demo_env 3) (demo_manifest ! 3) \<and>
   (df demo_volume_final ! 3) ''Recording Name'' = (demo_manifest ! 3) ''Recording Name'' \<and>
   (demo_manifest ! 3) ''Recording Name'' = Some ''d.wav''"
proof -
  have m: "main Volume (Some demo_manifest) demo_env = (0, Some demo_volume_final)"
    by (simp add: main_def demo_volume_run)
  have h: "(3::nat) < length demo_manifest" "(demo_manifest ! 3) ''Recording Name'' = Some ''d.wav''"
    by (simp_all add: demo_manifest_def)
  from output_manifest_keeps_rows[OF m] h(1)
  have "length (df demo_volume_final) = length demo_manifest"
    "df demo_volume_final ! 3 = final_row Volume (demo_env 3) (demo_manifest ! 3)"
    "(df demo_volume_final ! 3) ''Recording Name'' = (demo_manifest ! 3) ''Recording Name''"
    by blast+
  with m h show ?thesis by blast
qed

text \<open>
  Claim C6. For a row whose recording name ends in \<^verbatim>\<open>.wav\<close> and whose source path does not
  exist, the iteration increments the not-found counter by exactly one and changes nothing
  else, and in the output manifest both the source-path and the derived-path cell of the
  row are blank.
\<close>

theorem not_found_row_counted_once_and_left_blank:
  assumes "run st env df0 = Inr s'" "i < length df0"
    "(df0 ! i) ''Recording Name'' = Some f" "endswith f ''.wav''" "\<not> path_exists (env i)"
  shows "(\<forall>s. process_row st (env i) i (df (initial_state st df0) ! i) s
              = Inr (s\<lparr>not_found_count := not_found_count s + 1\<rparr>)) \<and>
    (df s' ! i) ''original_audio'' = Some [] \<and> (df s' ! i) (augmented_column st) = Some []"
proof -
  let ?r = "df (initial_state st df0) ! i"
  from assms(2,3) have name: "?r ''Recording Name'' = Some f" by (simp add: initial_row_name)
  have step: "process_row st (env i) i ?r s = Inr (s\<lparr>not_found_count := not_found_count s + 1\<rparr>)" for s
    using name assms(4,5) by (rule process_row_not_found)
  from run_row_final[OF assms(1,2)] obtain s1 s2 where
    "process_row st (env i) i ?r s1 = Inr s2" "df s1 ! i = ?r" "df s' ! i = df s2 ! i" by blast
  with step[of s1] have "df s' ! i = ?r" by simp
  with assms(2) step show ?thesis by (simp add: initial_state_df(2))
qed

theorem not_found_row_counted_once_and_left_blank_witness:
  "run Volume demo_env demo_manifest = Inr demo_volume_final \<and> (1::nat) < length demo_manifest \<and>
   (demo_manifest ! 1) ''Recording Name'' = Some ''b.wav'' \<and> endswith ''b.wav'' ''.wav'' \<and>
   \<not> path_exists (demo_env 1) \<and>
   (df demo_volume_final ! 1) ''original_audio'' = Some [] \<and>
   (df demo_volume_final ! 1) ''augmented_audio_volume'' = Some [] \<and>
   not_found_count demo_volume_final = 1"
proof -
  have h: "(1::nat) < length demo_manifest" "(demo_manifest ! 1) ''Recording Name'' = Some ''b.wav''"
    "endswith ''b.wav'' ''.wav''" "\<not> path_exists (demo_env 1)"
    by (simp_all add: demo_manifest_def endswith_def demo_env_def demo_obs_def)
  have "not_found_count demo_volume_final = 1" by (simp add: demo_volume_final_def)
  with not_found_row_counted_once_and_left_blank[where env=demo_env and i=1,
      OF demo_volume_run h] demo_volume_run h
  show ?thesis by simp
qed

lemma endswith_nonempty: "endswith f ''.wav'' \<Longrightarrow> f \<noteq> []"
  by (auto simp: endswith_def)

lemma path_join_nonempty: "p \<noteq> [] \<Longrightarrow> path_join a p \<noteq> []"
  by (simp add: path_join_def)

lemma check_duration_pass:
  assumes "passes_duration_filter st ob"
  shows "\<exists>s1. check_duration st ob p s = Inr (True, s1) \<and> df s1 = df s \<and>
    failed_count s1 = failed_count s"
  using assms
  by (auto simp: passes_duration_filter_def check_duration_def Let_def
      split: if_splits probe_result.splits)

lemma augment_failed:
  assumes "transform st ob p (path_join (augmented_folder st) (output_name st f)) = None"
  shows "augment st ob idx f p s =
    s\<lparr>df := at_set (df s) idx ''original_audio'' p, failed_count := failed_count s + 1\<rparr>"
  using assms by (simp add: augment_def Let_def)

lemma process_row_failed:
  assumes "row ''Recording Name'' = Some f" "endswith f ''.wav''" "path_exists ob"
    "passes_duration_filter st ob"
    "transform st ob (path_join filtered_folder f)
       (path_join (augmented_folder st) (output_name st f)) = None"
  shows "\<exists>s'. process_row st ob idx row s = Inr s' \<and>
    df s' = at_set (df s) idx ''original_audio'' (path_join filtered_folder f) \<and>
    failed_count s' = failed_count s + 1"
proof -
  from check_duration_pass[OF assms(4)] obtain s1 where
    cd: "check_duration st ob (path_join filtered_folder f) s = Inr (True, s1)"
    and s1: "df s1 = df s" "failed_count s1 = failed_count s" by blast
  from assms(1-3) cd have "process_row st ob idx row s
      = Inr (augment st ob idx f (path_join filtered_folder f) s1)"
    by (simp add: process_row_def)
  with s1 show ?thesis by (simp add: augment_failed[OF assms(5)])
qed

text \<open>
  Claim C8. When the transform fails for a row that reached it, the output manifest holds
  the source path, which is not blank, in the row's \<open>original_audio\<close> cell and a blank
  derived-path cell, and the iteration counts one failure. A not-found row has both cells
  blank, so the two kinds of row differ in the output manifest.
\<close>

theorem failed_row_keeps_original_audio:
  assumes "run st env df0 = Inr s'" "i < length df0"
    "(df0 ! i) ''Recording Name'' = Some f" "endswith f ''.wav''" "path_exists (env i)"
    "passes_duration_filter st (env i)"
    "transform st (env i) (path_join filtered_folder f)
       (path_join (augmented_folder st) (output_name st f)) = None"
  shows "(df s' ! i) ''original_audio'' = Some (path_join filtered_folder f) \<and>
    path_join filtered_folder f \<noteq> [] \<and>
    (df s' ! i) (augmented_column st) = Some [] \<and>
    (\<forall>s. \<exists>s1. process_row st (env i) i (df (initial_state st df0) ! i) s = Inr s1 \<and>
       failed_count s1 = failed_count s + 1)"
proof -
  let ?r = "df (initial_state st df0) ! i"
  let ?p = "path_join filtered_folder f"
  from assms(2,3) have name: "?r ''Recording Name'' = Some f" by (simp add: initial_row_name)
  note step = process_row_failed[where row="?r" and ob="env i", OF name assms(4-7)]
  from run_row_final[OF assms(1,2)] obtain s1 s2 where
    s12: "process_row st (env i) i ?r s1 = Inr s2" "length (df s1) = length df0"
      "df s1 ! i = ?r" "df s' ! i = df s2 ! i" by blast
  from step[of i s1] s12(1) have "df s2 = at_set (df s1) i ''original_audio'' ?p" by auto
  with s12 assms(2) have row: "df s' ! i = ?r(''original_audio'' \<mapsto> ?p)"
    by (simp add: at_set_nth_same)
  from assms(4) have "?p \<noteq> []" by (simp add: endswith_nonempty path_join_nonempty)
  moreover from row assms(2) have "(df s' ! i) ''original_audio'' = Some ?p"
    "(df s' ! i) (augmented_column st) = Some []"
    by (simp_all add: initial_state_df(2))
  moreover from step have "\<forall>s. \<exists>s1. process_row st (env i) i ?r s = Inr s1 \<and>
       failed_count s1 = failed_count s + 1" by blast
  ultimately show ?thesis by simp
qed

theorem failed_row_keeps_original_audio_witness:
  "run Volume demo_env demo_manifest = Inr demo_volume_final \<and> (3::nat) < length demo_manifest \<and>
   (demo_manifest ! 3) ''Recording Name'' = Some ''d.wav'' \<and> endswith ''d.wav'' ''.wav'' \<and>
   path_exists (demo_env 3) \<and> passes_duration_filter Volume (demo_env 3) \<and>
   transform Volume (demo_env 3) (path_join filtered_folder ''d.wav'')
     (path_join (augmented_folder Volume) (output_name Volume ''d.wav'')) = None \<and>
   (df demo_volume_final ! 3) ''original_audio'' = Some ''filteredforwhisper/d.wav'' \<and>
   (df demo_volume_final ! 3) ''augmented_audio_volume'' = Some []"
proof -
  have h: "(3::nat) < length demo_manifest" "(demo_manifest ! 3) ''Recording Name'' = Some ''d.wav''"
    "endswith ''d.wav'' ''.wav''" "path_exists (demo_env 3)"
    "passes_duration_filter Volume (demo_env 3)"
    "transform Volume (demo_env 3) (path_join filtered_folder ''d.wav'')
       (path_join (augmented_folder Volume) (output_name Volume ''d.wav'')) = None"
    by (simp_all add: demo_manifest_def endswith_def demo_env_def demo_obs_def
        passes_duration_filter_def transform_def)
  have "path_join filtered_folder ''d.wav'' = ''filteredforwhisper/d.wav''"
    by (simp add: path_join_def filtered_folder_def)
  with failed_row_keeps_original_audio[where env=demo_env and i=3, OF demo_volume_run h]
    demo_volume_run h
  show ?thesis by simp
qed

section \<open>Exit status and counters\<close>

text \<open>
  Claim C9. When the manifest file is missing the script calls \<^verbatim>\<open>exit()\<close> without an
  argument: the process ends with status 0 and writes no manifest, and a run that completes
  ends with the same status.
\<close>

theorem missing_manifest_exits_with_status_zero:
  "main st None env = (0, None) \<and>
   (\<forall>df0 s. run st env df0 = Inr s \<longrightarrow> fst (main st (Some df0) env) = fst (main st None env))"
  by (simp add: main_def exit_status_of_def)

theorem missing_manifest_exits_with_status_zero_witness:
  "main Volume None demo_env = (0, None) \<and> run Volume demo_env demo_manifest = Inr demo_volume_final \<and>
   fst (main Volume (Some demo_manifest) demo_env) = fst (main Volume None demo_env)"
  using missing_manifest_exits_with_status_zero[of Volume demo_env] demo_volume_run by blast

lemma total_initial: "total (initial_state st df0) = 0"
  by (simp add: total_def initial_state_def)

text \<open>
  Claim C10. One iteration raises the sum of the four counters by at most one and lowers
  none of them, so at most one counter is incremented per row; a row whose recording name
  does not end in \<^verbatim>\<open>.wav\<close> leaves the whole state as it is; hence after a run the sum of
  the counters is at most the number of manifest rows.
\<close>

theorem counters_sum_bounded_by_rows:
  assumes "run st env df0 = Inr s'"
  shows "total s' \<le> length df0 \<and>
    (\<forall>ob idx row s s1. process_row st ob idx row s = Inr s1 \<longrightarrow>
       total s1 \<le> total s + 1 \<and>
       success_count s \<le> success_count s1 \<and> failed_count s \<le> failed_count s1 \<and>
       not_found_count s \<le> not_found_count s1 \<and> deleted_count s \<le> deleted_count s1 \<and>
       (\<forall>f. row ''Recording Name'' = Some f \<longrightarrow> \<not> endswith f ''.wav'' \<longrightarrow> s1 = s))"
proof -
  from assms have "total s' \<le> total (initial_state st df0) + length (iterrows (df (initial_state st df0)))"
    unfolding run_def by (rule loop_counters)
  then have "total s' \<le> length df0"
    by (simp add: total_initial iterrows_length initial_state_df(1))
  moreover have "s1 = s" if "process_row st ob idx row s = Inr s1" "row ''Recording Name'' = Some f"
    "\<not> endswith f ''.wav''" for ob idx row s s1 f
    using that by (simp add: process_row_def)
  ultimately show ?thesis using process_row_counters by blast
qed

theorem counters_sum_bounded_by_rows_witness:
  "run Volume demo_env demo_manifest = Inr demo_volume_final \<and>
   total demo_volume_final \<le> length demo_manifest \<and> total demo_volume_final = 4 \<and>
   length demo_manifest = 5 \<and>
   process_row Volume (demo_env 4) 4 [''Recording Name'' \<mapsto> ''notes.txt''] demo_volume_final
     = Inr demo_volume_final"
proof -
  have step: "process_row Volume (demo_env 4) 4 [''Recording Name'' \<mapsto> ''notes.txt''] demo_volume_final
     = Inr demo_volume_final"
    by (simp add: process_row_def endswith_def)
  have "total demo_volume_final = 4" by (simp add: total_def demo_volume_final_def)
  moreover have "length demo_manifest = 5" by (simp add: demo_manifest_def)
  ultimately show ?thesis
    using counters_sum_bounded_by_rows[OF demo_volume_run] demo_volume_run step by blast
qed

end
